theory Spec2Isabelle
  imports Complex_Main "HOL-Library.Sublist"
begin

section \<open>The whiteboard modal: shapes, handlers and rendering\<close>

text \<open>
  The component \<^verbatim>\<open>WhiteboardKonvaModal\<close> keeps its shapes as fractions of the drawing
  surface and turns them into pixels when it renders. JavaScript numbers are modelled as
  \<^typ>\<open>real\<close>: rounding, infinities and NaN are outside the model, and a quotient agrees
  with the program's only where the divisor is not zero. The theorems that speak about
  normalised values therefore assume a stage of positive width and height, which every
  state the component can reach has (\<open>run_sizeInBounds\<close> below).

  A field \<open>f\<close> of the TypeScript type \<open>T\<close> is written \<open>t_f\<close>, since a record field is a
  constant of the theory and \<open>x\<close>, \<open>y\<close> or \<open>width\<close> must stay free for variables.
\<close>

subsection \<open>Types\<close>

datatype ToolType =
  MouseControl | Pen | Highlight | Brush | Square | Circle | Eraser | Save
  | ClearAll | Undo | Redo | Arrow | Cursor | Null | Close | Note

record LineShape =
  line_tool :: ToolType
  line_color :: string
  line_stroke :: real
  line_points :: "real list"
  line_keyOfPage :: "string option"

record CircleGeom =
  circle_x :: real
  circle_y :: real
  circle_radius :: real

record CircleShape =
  circle_color :: string
  circle_stroke :: real
  circle :: CircleGeom
  circle_keyOfPage :: "string option"

record RectGeom =
  rect_x :: real
  rect_y :: real
  rect_width :: real
  rect_height :: real

record RectShape =
  rect_color :: string
  rect_stroke :: real
  rectangle :: RectGeom
  rect_keyOfPage :: "string option"

record ImageShape =
  img_src :: string
  img_x :: real
  img_y :: real
  img_width :: real
  img_height :: real

text \<open>
  \<^verbatim>\<open>AnyShape\<close> is the union of the four shapes; the \<^verbatim>\<open>tool\<close> tags \<^verbatim>\<open>"Circle"\<close>,
  \<^verbatim>\<open>"Square"\<close> and \<^verbatim>\<open>"Image"\<close> are the constructors, and none of them equals a value of
  \<^verbatim>\<open>ToolType\<close> (\<^verbatim>\<open>ToolType.Circle\<close> is \<^verbatim>\<open>"circle"\<close>).
\<close>

datatype AnyShape =
  LineS LineShape | CircleS CircleShape | RectS RectShape | ImageS ImageShape

record Pos =
  pos_x :: real
  pos_y :: real

text \<open>
  \<^verbatim>\<open>stageRef.current\<close>: either null, or a stage, of which the code only asks
  \<^verbatim>\<open>getPointerPosition()\<close> (after \<^verbatim>\<open>setPointersPositions(e)\<close>), itself a position or null.
\<close>

datatype StageRef = StageNull | StageAt "Pos option"

text \<open>A value of type \<^verbatim>\<open>unknown\<close>, as far as \<^verbatim>\<open>typeof v === "string"\<close> can tell.\<close>

datatype JsValue = JString string | JNumber real | JBoolean bool | JNull | JUndefined | JObject

record FileItem =
  file_type :: string
  file_result :: JsValue  \<comment> \<open>\<^verbatim>\<open>reader.result\<close> when \<^verbatim>\<open>reader.onload\<close> fires\<close>

record DataTransfer =
  text_plain :: string  \<comment> \<open>\<^verbatim>\<open>getData("text/plain")\<close>, empty when there is none\<close>
  files :: "FileItem list"

text \<open>The loaded \<^verbatim>\<open>HTMLImageElement\<close>, of which the code reads width and height.\<close>

record ImgEl =
  el_width :: real
  el_height :: real

text \<open>
  The state of the component: the viewport, the modal's size, the shape store, the active
  tool and the drawing flag. The modal's drag position is left out: no handler below reads
  it.
\<close>

record State =
  windowW :: real
  windowH :: real
  size_width :: real
  size_height :: real
  shapes :: "AnyShape list"
  toolActive :: ToolType
  isDrawing :: bool  \<comment> \<open>\<^verbatim>\<open>isDrawingRef.current\<close>\<close>

subsection \<open>Utilities and sizing\<close>

definition clamp :: "real \<Rightarrow> real \<Rightarrow> real \<Rightarrow> real" where
  "clamp v lo hi = max lo (min hi v)"

definition denormX :: "real \<Rightarrow> real \<Rightarrow> real" where
  "denormX W nx = nx * W"

definition denormY :: "real \<Rightarrow> real \<Rightarrow> real" where
  "denormY H ny = ny * H"

text \<open>
  The loop of \<^verbatim>\<open>ratioForLine\<close> steps by two and reads \<^verbatim>\<open>normalized[i + 1]\<close> also when it
  is past the end, where the product is NaN: that element is \<open>None\<close> here.
\<close>

fun ratioForLine :: "real \<Rightarrow> real \<Rightarrow> real list \<Rightarrow> real option list" where
  "ratioForLine W H [] = []"
| "ratioForLine W H [a] = [Some (denormX W a), None]"
| "ratioForLine W H (a # b # rest) =
     Some (denormX W a) # Some (denormY H b) # ratioForLine W H rest"

definition FOOTER_HEIGHT :: real where "FOOTER_HEIGHT = 56"
definition PADDING_H :: real where "PADDING_H = 40"
definition PADDING_V :: real where "PADDING_V = 40"
definition NAV_BAR_H :: real where "NAV_BAR_H = 40"
definition GALLERY_H :: real where "GALLERY_H = 96"

definition baseWidth :: "real \<Rightarrow> real" where
  "baseWidth wW = max 280 (wW - PADDING_H * 2)"

definition baseHeight :: "real \<Rightarrow> real" where
  "baseHeight wH = max 240 (wH - FOOTER_HEIGHT - PADDING_V * 2)"

definition stageH :: "State \<Rightarrow> real" where
  "stageH s = max 0 (size_height s - NAV_BAR_H - GALLERY_H)"

definition stageW :: "State \<Rightarrow> real" where
  "stageW s = size_width s"

text \<open>The state after the first render: the size starts at the base size, the tool is the pen.\<close>

definition mount :: "real \<Rightarrow> real \<Rightarrow> State" where
  "mount wW wH =
     \<lparr>windowW = wW, windowH = wH,
      size_width = baseWidth wW, size_height = baseHeight wH,
      shapes = [], toolActive = Pen, isDrawing = False\<rparr>"

text \<open>
  A window resize stores the new viewport; the size effect, whose dependencies are the base
  width and height, then takes the minimum with the new base.
\<close>

definition onWindowResize :: "real \<Rightarrow> real \<Rightarrow> State \<Rightarrow> State" where
  "onWindowResize wW wH s =
     s\<lparr>windowW := wW, windowH := wH,
       size_width := min (size_width s) (baseWidth wW),
       size_height := min (size_height s) (baseHeight wH)\<rparr>"

text \<open>\<^verbatim>\<open>onResizeStop\<close>, given the numbers read from the element's style.\<close>

definition onResizeStop :: "real \<Rightarrow> real \<Rightarrow> State \<Rightarrow> State" where
  "onResizeStop newW newH s =
     s\<lparr>size_width := clamp newW 280 (baseWidth (windowW s)),
       size_height := clamp newH 240 (baseHeight (windowH s))\<rparr>"

subsection \<open>Drawing\<close>

definition isStrokeTool :: "ToolType \<Rightarrow> bool" where
  "isStrokeTool t = (t = Pen \<or> t = Highlight \<or> t = Eraser)"

definition onMouseDown :: "Pos option \<Rightarrow> State \<Rightarrow> State" where
  "onMouseDown pos s =
     (if \<not> isStrokeTool (toolActive s) then s
      else
        let s1 = s\<lparr>isDrawing := True\<rparr> in
        case pos of
          None \<Rightarrow> s1
        | Some p \<Rightarrow>
            let nx = clamp (pos_x p / stageW s) 0 1;
                ny = clamp (pos_y p / stageH s) 0 1;
                color = (if toolActive s = Highlight then ''rgba(255,255,0,0.5)'' else ''#222'');
                stroke = (if toolActive s = Eraser then 24 else 3)
            in s1\<lparr>shapes := shapes s1 @
                 [LineS \<lparr>line_tool = toolActive s, line_color = color, line_stroke = stroke,
                         line_points = [nx, ny], line_keyOfPage = None\<rparr>]\<rparr>)"

text \<open>
  The updater that \<^verbatim>\<open>onMouseMove\<close> passes to \<^verbatim>\<open>setShapes\<close>, applied once to the previous
  store. A circle, a rectangle or an image as the last shape fails the test on \<^verbatim>\<open>last.tool\<close>.
  The program copies the array and assigns the new points to the last shape object, which the
  previous array shares; with one application of the updater for each event the new store is
  the one below.
\<close>

definition appendPoint :: "real \<Rightarrow> real \<Rightarrow> Pos \<Rightarrow> AnyShape list \<Rightarrow> AnyShape list" where
  "appendPoint W H p prev =
     (if prev = [] then prev
      else case prev ! (length prev - 1) of
        LineS l \<Rightarrow>
          if line_tool l = Pen \<or> line_tool l = Highlight \<or> line_tool l = Eraser then
            let nx = clamp (pos_x p / W) 0 1;
                ny = clamp (pos_y p / H) 0 1
            in prev[length prev - 1 := LineS (l\<lparr>line_points := line_points l @ [nx, ny]\<rparr>)]
          else prev
      | _ \<Rightarrow> prev)"

definition onMouseMove :: "Pos option \<Rightarrow> State \<Rightarrow> State" where
  "onMouseMove pos s =
     (if \<not> isDrawing s then s
      else case pos of
        None \<Rightarrow> s
      | Some p \<Rightarrow> s\<lparr>shapes := appendPoint (stageW s) (stageH s) p (shapes s)\<rparr>)"

definition onMouseUp :: "State \<Rightarrow> State" where
  "onMouseUp s = s\<lparr>isDrawing := False\<rparr>"

subsection \<open>Placing images\<close>

definition dropAtPointer :: "string \<Rightarrow> StageRef \<Rightarrow> State \<Rightarrow> State" where
  "dropAtPointer src stage s =
     (case stage of
        StageNull \<Rightarrow> s
      | StageAt None \<Rightarrow> s
      | StageAt (Some p) \<Rightarrow>
          let nx = clamp (pos_x p / stageW s) 0 1;
              ny = clamp (pos_y p / stageH s) 0 1;
              nW = 0.25; nH = 0.25
          in s\<lparr>shapes := shapes s @
               [ImageS \<lparr>img_src = src, img_x = nx, img_y = ny,
                        img_width = nW, img_height = nH\<rparr>]\<rparr>)"

text \<open>\<^verbatim>\<open>window.__dropImageFromUpload\<close>: the stage argument stands for the synthetic event.\<close>

definition dropImageFromUpload :: "JsValue \<Rightarrow> StageRef \<Rightarrow> State \<Rightarrow> State" where
  "dropImageFromUpload dataUrl stage s =
     (case dataUrl of JString d \<Rightarrow> dropAtPointer d stage s | _ \<Rightarrow> s)"

text \<open>
  The desktop \<^verbatim>\<open>onDrop\<close>. Reading the file is asynchronous in the program; here the read
  and its \<^verbatim>\<open>onload\<close> are one step, with the result carried by the file.
\<close>

definition onDrop :: "DataTransfer option \<Rightarrow> StageRef \<Rightarrow> State \<Rightarrow> State" where
  "onDrop dataTransfer stage s =
     (case dataTransfer of
        None \<Rightarrow> s
      | Some ds \<Rightarrow>
          if text_plain ds \<noteq> [] then dropAtPointer (text_plain ds) stage s
          else
            (case files ds of
               [] \<Rightarrow> s
             | f # _ \<Rightarrow>
                 (if prefix ''image/'' (file_type f) then
                    (case file_result f of JString r \<Rightarrow> dropAtPointer r stage s | _ \<Rightarrow> s)
                  else s)))"

text \<open>\<^verbatim>\<open>onMobileDrop\<close>: a missing, null or empty \<^verbatim>\<open>src\<close> is falsy.\<close>

definition onMobileDrop :: "string option \<Rightarrow> StageRef \<Rightarrow> State \<Rightarrow> State" where
  "onMobileDrop src stage s =
     (case src of
        None \<Rightarrow> s
      | Some v \<Rightarrow> if v = [] then s else dropAtPointer v stage s)"

subsection \<open>Images on the stage\<close>

text \<open>
  \<^verbatim>\<open>commitPos\<close> and \<^verbatim>\<open>commitHeightByAspect\<close> cast \<^verbatim>\<open>u[index]\<close> to an image without a check.
  Only a rendered image calls them, with its own index; an index past the end or the index
  of another shape is outside what the model covers, and the result is \<open>None\<close>.
\<close>

definition commitPos :: "nat \<Rightarrow> real \<Rightarrow> real \<Rightarrow> AnyShape list \<Rightarrow> AnyShape list option" where
  "commitPos index nx ny prev =
     (if index < length prev then
        (case prev ! index of
           ImageS img \<Rightarrow> Some (prev[index := ImageS (img\<lparr>img_x := nx, img_y := ny\<rparr>)])
         | _ \<Rightarrow> None)
      else None)"

definition commitHeightByAspect :: "nat \<Rightarrow> real \<Rightarrow> AnyShape list \<Rightarrow> AnyShape list option" where
  "commitHeightByAspect index nh prev =
     (if index < length prev then
        (case prev ! index of
           ImageS img \<Rightarrow> Some (prev[index := ImageS (img\<lparr>img_height := nh\<rparr>)])
         | _ \<Rightarrow> None)
      else None)"

definition desiredHByAspect :: "ImageShape \<Rightarrow> ImgEl option \<Rightarrow> real \<Rightarrow> real \<Rightarrow> real" where
  "desiredHByAspect shape imgEl sW sH =
     (let targetW = img_width shape * sW in
      case imgEl of
        Some el \<Rightarrow> targetW * (el_height el / el_width el)
      | None \<Rightarrow> img_height shape * sH)"

record KonvaImage =
  ki_image :: "ImgEl option"
  ki_x :: real
  ki_y :: real
  ki_width :: real
  ki_height :: real
  ki_offsetX :: real
  ki_offsetY :: real
  ki_draggable :: bool

definition RenderImageBase :: "ImageShape \<Rightarrow> ImgEl option \<Rightarrow> real \<Rightarrow> real \<Rightarrow> KonvaImage" where
  "RenderImageBase shape imgEl sW sH =
     (let px = img_x shape * sW;
          py = img_y shape * sH;
          targetW = img_width shape * sW;
          targetH = desiredHByAspect shape imgEl sW sH
      in \<lparr>ki_image = imgEl, ki_x = px, ki_y = py, ki_width = targetW, ki_height = targetH,
          ki_offsetX = targetW / 2, ki_offsetY = targetH / 2, ki_draggable = True\<rparr>)"


text \<open>
  The effect of \<^verbatim>\<open>RenderImageBase\<close> for the image at \<open>index\<close>. React runs it after a render
  in which one of its dependencies changed: the loaded element, the desired height, the
  stage height, the stored height.
\<close>

definition aspectEffect :: "nat \<Rightarrow> ImgEl option \<Rightarrow> State \<Rightarrow> State option" where
  "aspectEffect index imgEl s =
     (if index < length (shapes s) then
        (case shapes s ! index of
           ImageS shape \<Rightarrow>
             (case imgEl of
                None \<Rightarrow> Some s
              | Some el \<Rightarrow>
                  let nh = desiredHByAspect shape imgEl (stageW s) (stageH s) / stageH s in
                  if \<bar>nh - img_height shape\<bar> > 0.001 then
                    map_option (\<lambda>u. s\<lparr>shapes := u\<rparr>) (commitHeightByAspect index nh (shapes s))
                  else Some s)
         | _ \<Rightarrow> None)
      else None)"

definition handleDragEnd :: "nat \<Rightarrow> real \<Rightarrow> real \<Rightarrow> State \<Rightarrow> State option" where
  "handleDragEnd index px py s =
     (let nx = clamp (px / stageW s) 0 1;
          ny = clamp (py / stageH s) 0 1
      in map_option (\<lambda>u. s\<lparr>shapes := u\<rparr>) (commitPos index nx ny (shapes s)))"

subsection \<open>The layer of lines and shapes\<close>

record KonvaLine =
  kl_points :: "real option list"
  kl_stroke :: string
  kl_strokeWidth :: real
  kl_globalCompositeOperation :: string

record KonvaCircle =
  kc_x :: real
  kc_y :: real
  kc_radius :: real
  kc_stroke :: string
  kc_strokeWidth :: real

record KonvaRect =
  kr_x :: real
  kr_y :: real
  kr_width :: real
  kr_height :: real
  kr_stroke :: string
  kr_strokeWidth :: real

datatype KonvaNode = NLine KonvaLine | NCircle KonvaCircle | NRect KonvaRect

text \<open>What the second layer returns for one shape; \<open>None\<close> is \<^verbatim>\<open>null\<close>.\<close>

definition renderShape :: "real \<Rightarrow> real \<Rightarrow> AnyShape \<Rightarrow> KonvaNode option" where
  "renderShape sW sH s =
     (case s of
        LineS l \<Rightarrow>
          if line_tool l = Pen \<or> line_tool l = Highlight \<or> line_tool l = Eraser then
            Some (NLine
              \<lparr>kl_points = ratioForLine sW sH (line_points l),
               kl_stroke = (if line_tool l = Eraser then ''#000'' else line_color l),
               kl_strokeWidth = line_stroke l,
               kl_globalCompositeOperation =
                 (if line_tool l = Eraser then ''destination-out'' else ''source-over'')\<rparr>)
          else None
      | CircleS c \<Rightarrow>
          Some (NCircle
            \<lparr>kc_x = denormX sW (circle_x (circle c)),
             kc_y = denormY sH (circle_y (circle c)),
             kc_radius = denormX sW (circle_radius (circle c)),
             kc_stroke = circle_color c, kc_strokeWidth = circle_stroke c\<rparr>)
      | RectS r \<Rightarrow>
          Some (NRect
            \<lparr>kr_x = denormX sW (rect_x (rectangle r)),
             kr_y = denormY sH (rect_y (rectangle r)),
             kr_width = denormX sW (rect_width (rectangle r)),
             kr_height = denormY sH (rect_height (rectangle r)),
             kr_stroke = rect_color r, kr_strokeWidth = rect_stroke r\<rparr>)
      | ImageS _ \<Rightarrow> None)"

subsection \<open>Events\<close>

text \<open>
  One constructor for each handler the component registers. \<open>ImageDragMove\<close> is Konva's
  drag tick, for which the image registers nothing. \<open>AspectEffect\<close> is a run of the effect
  above. A drag or an effect of an index that holds no image cannot happen: the step is
  \<open>None\<close>.
\<close>

datatype Event =
  MouseDown "Pos option"
  | MouseMove "Pos option"
  | MouseUp
  | SetTool ToolType
  | NativeDrop "DataTransfer option" StageRef
  | Upload JsValue StageRef
  | MobileDragEnd "string option" StageRef
  | ImageDragMove nat real real
  | ImageDragEnd nat real real
  | AspectEffect nat "ImgEl option"
  | ResizeStop real real
  | WindowResize real real

definition isImageAt :: "nat \<Rightarrow> AnyShape list \<Rightarrow> bool" where
  "isImageAt index u =
     (index < length u \<and> (case u ! index of ImageS _ \<Rightarrow> True | _ \<Rightarrow> False))"

fun step :: "State \<Rightarrow> Event \<Rightarrow> State option" where
  "step s (MouseDown pos) = Some (onMouseDown pos s)"
| "step s (MouseMove pos) = Some (onMouseMove pos s)"
| "step s MouseUp = Some (onMouseUp s)"
| "step s (SetTool t) = Some (s\<lparr>toolActive := t\<rparr>)"
| "step s (NativeDrop dataTransfer stage) = Some (onDrop dataTransfer stage s)"
| "step s (Upload dataUrl stage) = Some (dropImageFromUpload dataUrl stage s)"
| "step s (MobileDragEnd src stage) = Some (onMobileDrop src stage s)"
| "step s (ImageDragMove index px py) = (if isImageAt index (shapes s) then Some s else None)"
| "step s (ImageDragEnd index px py) = handleDragEnd index px py s"
| "step s (AspectEffect index imgEl) = aspectEffect index imgEl s"
| "step s (ResizeStop newW newH) = Some (onResizeStop newW newH s)"
| "step s (WindowResize wW wH) = Some (onWindowResize wW wH s)"

fun run :: "State \<Rightarrow> Event list \<Rightarrow> State option" where
  "run s [] = Some s"
| "run s (e # es) = (case step s e of None \<Rightarrow> None | Some s' \<Rightarrow> run s' es)"

text \<open>The events of the pointer: drawing, dropping an image, dragging a placed image.\<close>

fun pointerEvent :: "Event \<Rightarrow> bool" where
  "pointerEvent (MouseDown _) = True"
| "pointerEvent (MouseMove _) = True"
| "pointerEvent MouseUp = True"
| "pointerEvent (NativeDrop _ _) = True"
| "pointerEvent (Upload _ _) = True"
| "pointerEvent (MobileDragEnd _ _) = True"
| "pointerEvent (ImageDragMove _ _ _) = True"
| "pointerEvent (ImageDragEnd _ _ _) = True"
| "pointerEvent _ = False"

text \<open>Every number a shape stores as a fraction of the surface.\<close>

fun shapeCoords :: "AnyShape \<Rightarrow> real list" where
  "shapeCoords (LineS l) = line_points l"
| "shapeCoords (CircleS c) =
     [circle_x (circle c), circle_y (circle c), circle_radius (circle c)]"
| "shapeCoords (RectS r) =
     [rect_x (rectangle r), rect_y (rectangle r),
      rect_width (rectangle r), rect_height (rectangle r)]"
| "shapeCoords (ImageS i) = [img_x i, img_y i, img_width i, img_height i]"

definition storeCoords :: "AnyShape list \<Rightarrow> real set" where
  "storeCoords u = set (concat (map shapeCoords u))"

text \<open>
  The two numbers every handler computes from a pointer position, and the numbers that a
  sequence of move events brings, in the order of arrival (a move without a position
  brings none).
\<close>

definition normPoint :: "real \<Rightarrow> real \<Rightarrow> Pos \<Rightarrow> real list" where
  "normPoint W H p = [clamp (pos_x p / W) 0 1, clamp (pos_y p / H) 0 1]"

definition arrived :: "real \<Rightarrow> real \<Rightarrow> Pos option list \<Rightarrow> real list" where
  "arrived W H ms = concat (map (\<lambda>m. case m of None \<Rightarrow> [] | Some q \<Rightarrow> normPoint W H q) ms)"

text \<open>The last shape of the store, when it is a stroke of the pen, the highlighter or the eraser.\<close>

definition lastStroke :: "AnyShape list \<Rightarrow> LineShape option" where
  "lastStroke u =
     (if u = [] then None
      else case last u of
        LineS l \<Rightarrow> if isStrokeTool (line_tool l) then Some l else None
      | _ \<Rightarrow> None)"

text \<open>The bounds of the modal's size: the minimum below, the base size above.\<close>

definition sizeInBounds :: "State \<Rightarrow> bool" where
  "sizeInBounds s =
     (280 \<le> size_width s \<and> size_width s \<le> baseWidth (windowW s) \<and>
      240 \<le> size_height s \<and> size_height s \<le> baseHeight (windowH s))"

section \<open>Properties\<close>

lemmas layout_defs =
  FOOTER_HEIGHT_def PADDING_H_def PADDING_V_def NAV_BAR_H_def GALLERY_H_def

lemma clamp_unit: "0 \<le> clamp v 0 1 \<and> clamp v 0 1 \<le> 1"
  by (simp add: clamp_def)

subsection \<open>What a handler adds to the stored fractions\<close>


lemma storeCoords_append: "storeCoords (u @ v) = storeCoords u \<union> storeCoords v"
  by (simp add: storeCoords_def)

lemma storeCoords_single: "storeCoords [sh] = set (shapeCoords sh)"
  by (simp add: storeCoords_def)

lemma storeCoords_update:
  "storeCoords (u[i := sh]) \<subseteq> storeCoords u \<union> set (shapeCoords sh)"
  unfolding storeCoords_def using set_update_subset_insert [of u i sh] by auto

lemma storeCoords_nth: "i < length u \<Longrightarrow> set (shapeCoords (u ! i)) \<subseteq> storeCoords u"
  unfolding storeCoords_def using nth_mem [of i u] by fastforce

lemma dropAtPointer_coords:
  "storeCoords (shapes (dropAtPointer src stage s)) \<subseteq> storeCoords (shapes s) \<union> {c. 0 \<le> c \<and> c \<le> 1}"
  by (auto simp: dropAtPointer_def storeCoords_append storeCoords_single clamp_unit Let_def
      split: StageRef.splits option.splits)

lemma appendPoint_coords:
  "storeCoords (appendPoint W H p u) \<subseteq> storeCoords u \<union> {c. 0 \<le> c \<and> c \<le> 1}"
proof (cases "u = []")
  case True then show ?thesis by (simp add: appendPoint_def)
next
  case False
  then have lt: "length u - 1 < length u" by (cases u) auto
  show ?thesis
  proof (cases "u ! (length u - 1)")
    case (LineS l)
    have old: "set (line_points l) \<subseteq> storeCoords u"
      using storeCoords_nth [OF lt] LineS by simp
    let ?nl = "LineS (l\<lparr>line_points := line_points l @
        [clamp (pos_x p / W) 0 1, clamp (pos_y p / H) 0 1]\<rparr>)"
    have new: "set (shapeCoords ?nl) \<subseteq> storeCoords u \<union> {c. 0 \<le> c \<and> c \<le> 1}"
      using old clamp_unit by auto
    have "storeCoords (u[length u - 1 := ?nl]) \<subseteq> storeCoords u \<union> {c. 0 \<le> c \<and> c \<le> 1}"
      using storeCoords_update [of u "length u - 1" ?nl] new by blast
    then show ?thesis
      using False LineS by (simp add: appendPoint_def Let_def)
  qed (simp_all add: appendPoint_def False)
qed

lemma commitPos_coords:
  "commitPos i nx ny u = Some v \<Longrightarrow> 0 \<le> nx \<and> nx \<le> 1 \<Longrightarrow> 0 \<le> ny \<and> ny \<le> 1 \<Longrightarrow>
   storeCoords v \<subseteq> storeCoords u \<union> {c. 0 \<le> c \<and> c \<le> 1}"
proof -
  assume a: "commitPos i nx ny u = Some v" and x: "0 \<le> nx \<and> nx \<le> 1" and y: "0 \<le> ny \<and> ny \<le> 1"
  from a obtain img where lt: "i < length u" and im: "u ! i = ImageS img"
    and v: "v = u[i := ImageS (img\<lparr>img_x := nx, img_y := ny\<rparr>)]"
    by (auto simp: commitPos_def split: if_splits AnyShape.splits)
  have old: "{img_width img, img_height img} \<subseteq> storeCoords u"
    using storeCoords_nth [OF lt] im by simp
  show ?thesis
    using old x y storeCoords_update [of u i "ImageS (img\<lparr>img_x := nx, img_y := ny\<rparr>)"]
    unfolding v by auto
qed

lemma sizeInBounds_mount: "sizeInBounds (mount wW wH)"
  by (simp add: sizeInBounds_def mount_def baseWidth_def baseHeight_def)

lemma sizeInBounds_onResizeStop: "sizeInBounds (onResizeStop newW newH s)"
  by (simp add: sizeInBounds_def onResizeStop_def clamp_def baseWidth_def baseHeight_def)

lemma sizeInBounds_onWindowResize: "sizeInBounds s \<Longrightarrow> sizeInBounds (onWindowResize wW wH s)"
  by (simp add: sizeInBounds_def onWindowResize_def baseWidth_def baseHeight_def)


lemma onDrop_coords:
  "storeCoords (shapes (onDrop dt stage s)) \<subseteq> storeCoords (shapes s) \<union> {c. 0 \<le> c \<and> c \<le> 1}"
  using dropAtPointer_coords
  by (simp add: onDrop_def split: option.splits list.splits JsValue.splits)

lemma upload_coords:
  "storeCoords (shapes (dropImageFromUpload v stage s)) \<subseteq> storeCoords (shapes s) \<union> {c. 0 \<le> c \<and> c \<le> 1}"
  using dropAtPointer_coords
  by (simp add: dropImageFromUpload_def split: JsValue.splits)

lemma mobile_coords:
  "storeCoords (shapes (onMobileDrop v stage s)) \<subseteq> storeCoords (shapes s) \<union> {c. 0 \<le> c \<and> c \<le> 1}"
  using dropAtPointer_coords
  by (simp add: onMobileDrop_def split: option.splits)

lemma onMouseDown_coords:
  "storeCoords (shapes (onMouseDown pos s)) \<subseteq> storeCoords (shapes s) \<union> {c. 0 \<le> c \<and> c \<le> 1}"
  by (auto simp: onMouseDown_def Let_def storeCoords_append storeCoords_single clamp_unit
      split: option.splits)

lemma onMouseMove_coords:
  "storeCoords (shapes (onMouseMove pos s)) \<subseteq> storeCoords (shapes s) \<union> {c. 0 \<le> c \<and> c \<le> 1}"
  using appendPoint_coords
  by (simp add: onMouseMove_def split: option.splits)

lemma handleDragEnd_coords:
  "handleDragEnd i px py s = Some s' \<Longrightarrow>
   storeCoords (shapes s') \<subseteq> storeCoords (shapes s) \<union> {c. 0 \<le> c \<and> c \<le> 1}"
proof -
  assume "handleDragEnd i px py s = Some s'"
  then obtain v where
    c: "commitPos i (clamp (px / stageW s) 0 1) (clamp (py / stageH s) 0 1) (shapes s) = Some v"
    and s': "s' = s\<lparr>shapes := v\<rparr>"
    by (auto simp: handleDragEnd_def Let_def)
  show ?thesis
    using commitPos_coords [OF c clamp_unit clamp_unit] by (simp add: s')
qed

lemma pointer_step_coords:
  "pointerEvent e \<Longrightarrow> step s e = Some s' \<Longrightarrow>
   storeCoords (shapes s') \<subseteq> storeCoords (shapes s) \<union> {c. 0 \<le> c \<and> c \<le> 1}"
proof (cases e)
  case (MouseDown pos)
  assume "step s e = Some s'"
  then show ?thesis using MouseDown onMouseDown_coords by auto
next
  case (MouseMove pos)
  assume "step s e = Some s'"
  then show ?thesis using MouseMove onMouseMove_coords by auto
next
  case MouseUp
  assume "step s e = Some s'"
  then show ?thesis using MouseUp by (auto simp: onMouseUp_def)
next
  case (NativeDrop dt st)
  assume "step s e = Some s'"
  then show ?thesis using NativeDrop onDrop_coords by auto
next
  case (Upload v st)
  assume "step s e = Some s'"
  then show ?thesis using Upload upload_coords by auto
next
  case (MobileDragEnd v st)
  assume "step s e = Some s'"
  then show ?thesis using MobileDragEnd mobile_coords by auto
next
  case (ImageDragMove i px py)
  assume "step s e = Some s'"
  then show ?thesis using ImageDragMove by (auto split: if_splits)
next
  case (ImageDragEnd i px py)
  assume "step s e = Some s'"
  then show ?thesis using ImageDragEnd handleDragEnd_coords by auto
qed simp_all

lemma step_sizeInBounds: "sizeInBounds s \<Longrightarrow> step s e = Some s' \<Longrightarrow> sizeInBounds s'"
proof (cases e)
  case (ResizeStop nw nh)
  assume "step s e = Some s'"
  then show ?thesis using ResizeStop sizeInBounds_onResizeStop by auto
next
  case (WindowResize w h)
  assume "sizeInBounds s" "step s e = Some s'"
  then show ?thesis using WindowResize sizeInBounds_onWindowResize by auto
qed (auto simp: sizeInBounds_def onMouseDown_def onMouseMove_def onMouseUp_def onDrop_def
      dropAtPointer_def dropImageFromUpload_def onMobileDrop_def handleDragEnd_def aspectEffect_def
      Let_def split: if_splits option.splits list.splits JsValue.splits StageRef.splits AnyShape.splits)

lemma run_sizeInBounds: "sizeInBounds s \<Longrightarrow> run s es = Some s' \<Longrightarrow> sizeInBounds s'"
proof (induction es arbitrary: s)
  case Nil then show ?case by simp
next
  case (Cons e es)
  then show ?case by (auto split: option.splits dest: step_sizeInBounds)
qed

lemma stageH_of_bounds: "sizeInBounds s \<Longrightarrow> stageH s = size_height s - 136 \<and> 104 \<le> stageH s"
  by (simp add: sizeInBounds_def stageH_def layout_defs)

lemma stageW_of_bounds: "sizeInBounds s \<Longrightarrow> 280 \<le> stageW s"
  by (simp add: sizeInBounds_def stageW_def)

subsection \<open>Move events on a stroke\<close>

lemma stage_shapes_update [simp]:
  "stageW (s\<lparr>shapes := u\<rparr>) = stageW s" "stageH (s\<lparr>shapes := u\<rparr>) = stageH s"
  by (simp_all add: stageW_def stageH_def)

lemma appendPoint_snoc:
  "isStrokeTool (line_tool l) \<Longrightarrow>
   appendPoint W H q (pre @ [LineS l])
     = pre @ [LineS (l\<lparr>line_points := line_points l @ normPoint W H q\<rparr>)]"
  by (simp add: appendPoint_def isStrokeTool_def normPoint_def Let_def nth_append)

lemma appendPoint_lastStroke:
  "appendPoint W H q u =
     (case lastStroke u of
        None \<Rightarrow> u
      | Some l \<Rightarrow> butlast u @ [LineS (l\<lparr>line_points := line_points l @ normPoint W H q\<rparr>)])"
proof (cases u rule: rev_cases)
  case Nil
  then show ?thesis by (simp add: appendPoint_def lastStroke_def)
next
  case (snoc pre sh)
  show ?thesis
  proof (cases sh)
    case (LineS l)
    show ?thesis
    proof (cases "isStrokeTool (line_tool l)")
      case True
      then show ?thesis using snoc LineS appendPoint_snoc [OF True, of W H q pre]
        by (simp add: lastStroke_def)
    next
      case False
      then show ?thesis using snoc LineS
        by (simp add: appendPoint_def lastStroke_def isStrokeTool_def nth_append)
    qed
  qed (simp_all add: snoc appendPoint_def lastStroke_def nth_append)
qed

lemma moves_append:
  "isDrawing t \<Longrightarrow> shapes t = pre @ [LineS l] \<Longrightarrow> isStrokeTool (line_tool l) \<Longrightarrow>
   foldl (\<lambda>t m. onMouseMove m t) t ms
     = t\<lparr>shapes := pre @ [LineS (l\<lparr>line_points :=
           line_points l @ arrived (stageW t) (stageH t) ms\<rparr>)]\<rparr>"
proof (induction ms arbitrary: t l)
  case Nil
  then show ?case by (simp add: arrived_def)
next
  case (Cons m ms)
  show ?case
  proof (cases m)
    case None
    have "onMouseMove m t = t" using None Cons.prems by (simp add: onMouseMove_def)
    then show ?thesis using Cons.IH [OF Cons.prems] None by (simp add: arrived_def)
  next
    case (Some q)
    let ?l = "l\<lparr>line_points := line_points l @ normPoint (stageW t) (stageH t) q\<rparr>"
    let ?t = "t\<lparr>shapes := pre @ [LineS ?l]\<rparr>"
    have st: "onMouseMove m t = ?t"
      using Some Cons.prems appendPoint_snoc [of l "stageW t" "stageH t" q pre]
      by (simp add: onMouseMove_def)
    have "foldl (\<lambda>t m. onMouseMove m t) ?t ms
      = ?t\<lparr>shapes := pre @ [LineS (?l\<lparr>line_points :=
           line_points ?l @ arrived (stageW ?t) (stageH ?t) ms\<rparr>)]\<rparr>"
      by (rule Cons.IH) (use Cons.prems in simp_all)
    then show ?thesis using st Some by (simp add: arrived_def)
  qed
qed

subsection \<open>Denormalising the points of a line\<close>

lemma ratioForLine_even:
  "even (length pts) \<Longrightarrow>
   length (ratioForLine W H pts) = length pts \<and>
   (\<forall>i < length pts. ratioForLine W H pts ! i
      = Some (if even i then pts ! i * W else pts ! i * H))"
proof (induction W H pts rule: ratioForLine.induct)
  case (1 W H)
  then show ?case by simp
next
  case (2 W H a)
  then show ?case by simp
next
  case (3 W H a b rest)
  then have ih: "length (ratioForLine W H rest) = length rest"
    and ihn: "\<And>i. i < length rest \<Longrightarrow> ratioForLine W H rest ! i
      = Some (if even i then rest ! i * W else rest ! i * H)"
    by simp_all
  show ?case
  proof (intro conjI allI impI)
    show "length (ratioForLine W H (a # b # rest)) = length (a # b # rest)"
      using ih by simp
  next
    fix i assume lt: "i < length (a # b # rest)"
    show "ratioForLine W H (a # b # rest) ! i
      = Some (if even i then (a # b # rest) ! i * W else (a # b # rest) ! i * H)"
    proof (cases i)
      case 0
      then show ?thesis by (simp add: denormX_def)
    next
      case (Suc j)
      show ?thesis
      proof (cases j)
        case 0
        then show ?thesis using Suc by (simp add: denormY_def)
      next
        case (Suc k)
        then have "k < length rest" using lt \<open>i = Suc j\<close> by simp
        then show ?thesis using ihn [of k] Suc \<open>i = Suc j\<close> by simp
      qed
    qed
  qed
qed

subsection \<open>C1: the pointer writes fractions between 0 and 1\<close>

text \<open>
  Claim C1. On a stage of positive size, whatever a pointer event puts into the shape store
  (the first point of a stroke, an appended point, a dropped image, the position of a dragged
  image on release) is a number between 0 and 1 or was in the store before, for every raw
  position; a position left of or above the surface gives 0, one right of or below it gives 1.
\<close>

theorem pointer_writes_unit_interval:
  assumes "0 < stageW s" and "0 < stageH s" and "pointerEvent e" and "step s e = Some s'"
  shows "storeCoords (shapes s') \<subseteq> storeCoords (shapes s) \<union> {c. 0 \<le> c \<and> c \<le> 1}
    \<and> (\<forall>v. v \<le> 0 \<longrightarrow> clamp (v / stageW s) 0 1 = 0 \<and> clamp (v / stageH s) 0 1 = 0)
    \<and> (\<forall>v. stageW s \<le> v \<longrightarrow> clamp (v / stageW s) 0 1 = 1)
    \<and> (\<forall>v. stageH s \<le> v \<longrightarrow> clamp (v / stageH s) 0 1 = 1)"
proof -
  have lo: "clamp (v / d) 0 1 = 0" if "0 < d" and "v \<le> 0" for v d :: real
  proof -
    have "v / d \<le> 0" using that by (simp add: divide_nonpos_pos)
    then show ?thesis by (simp add: clamp_def)
  qed
  have hi: "clamp (v / d) 0 1 = 1" if "0 < d" and "d \<le> v" for v d :: real
  proof -
    have "1 \<le> v / d" using that by simp
    then show ?thesis by (simp add: clamp_def)
  qed
  show ?thesis
    using pointer_step_coords [OF assms(3,4)] lo hi assms(1,2) by simp
qed

theorem pointer_writes_unit_interval_witness:
  "0 < stageW (mount 880 872) \<and> 0 < stageH (mount 880 872)
   \<and> pointerEvent (MouseDown (Some \<lparr>pos_x = -50, pos_y = 9999\<rparr>))
   \<and> step (mount 880 872) (MouseDown (Some \<lparr>pos_x = -50, pos_y = 9999\<rparr>))
       = Some \<lparr>windowW = 880, windowH = 872, size_width = 800, size_height = 736,
           shapes = [LineS \<lparr>line_tool = Pen, line_color = ''#222'', line_stroke = 3,
                            line_points = [0, 1], line_keyOfPage = None\<rparr>],
           toolActive = Pen, isDrawing = True\<rparr>
   \<and> storeCoords [LineS \<lparr>line_tool = Pen, line_color = ''#222'', line_stroke = 3,
                            line_points = [0, 1], line_keyOfPage = None\<rparr>]
       \<subseteq> storeCoords [] \<union> {c. 0 \<le> c \<and> c \<le> 1}"
proof -
  have w: "0 < stageW (mount 880 872)" and h: "0 < stageH (mount 880 872)"
    by (simp_all add: mount_def stageW_def stageH_def baseWidth_def baseHeight_def layout_defs)
  have p: "pointerEvent (MouseDown (Some \<lparr>pos_x = -50, pos_y = 9999\<rparr>))" by simp
  have st: "step (mount 880 872) (MouseDown (Some \<lparr>pos_x = -50, pos_y = 9999\<rparr>))
       = Some \<lparr>windowW = 880, windowH = 872, size_width = 800, size_height = 736,
           shapes = [LineS \<lparr>line_tool = Pen, line_color = ''#222'', line_stroke = 3,
                            line_points = [0, 1], line_keyOfPage = None\<rparr>],
           toolActive = Pen, isDrawing = True\<rparr>"
    by (simp add: mount_def onMouseDown_def isStrokeTool_def stageW_def stageH_def clamp_def
        baseWidth_def baseHeight_def layout_defs)
  show ?thesis
    using w h p st pointer_writes_unit_interval [OF w h p st] by (simp add: mount_def)
qed

subsection \<open>C6: the size of the modal stays within its bounds\<close>

text \<open>
  Claim C6. In every state the component reaches from its mount, through any events, the
  modal's width is at least 280 and at most the base width, its height at least 240 and at
  most the base height; a resize-stop commits a size within these bounds whatever numbers
  it is given, and a viewport change leaves the size within the bounds of the new base. The
  stage height is then the height minus 136 and positive.
\<close>

theorem modal_size_within_bounds:
  assumes "run (mount wW wH) es = Some s"
  shows "sizeInBounds s
    \<and> sizeInBounds (onResizeStop newW newH s)
    \<and> sizeInBounds (onWindowResize wW' wH' s)
    \<and> 280 \<le> size_width s \<and> 240 \<le> size_height s
    \<and> stageH s = size_height s - 136 \<and> 0 < stageH s"
proof -
  have b: "sizeInBounds s"
    using run_sizeInBounds [OF sizeInBounds_mount assms] .
  have h: "stageH s = size_height s - 136 \<and> 104 \<le> stageH s"
    using stageH_of_bounds [OF b] .
  show ?thesis
    using b h sizeInBounds_onResizeStop sizeInBounds_onWindowResize [OF b]
    by (simp add: sizeInBounds_def)
qed

theorem modal_size_within_bounds_witness:
  "run (mount 1000 900) [ResizeStop 100 5000, WindowResize 300 200]
     = Some \<lparr>windowW = 300, windowH = 200, size_width = 280, size_height = 240,
             shapes = [], toolActive = Pen, isDrawing = False\<rparr>
   \<and> sizeInBounds \<lparr>windowW = 300, windowH = 200, size_width = 280, size_height = 240,
             shapes = [], toolActive = Pen, isDrawing = False\<rparr>
   \<and> stageH \<lparr>windowW = 300, windowH = 200, size_width = 280, size_height = 240,
             shapes = [], toolActive = Pen, isDrawing = False\<rparr> = 104"
proof -
  have r: "run (mount 1000 900) [ResizeStop 100 5000, WindowResize 300 200]
     = Some \<lparr>windowW = 300, windowH = 200, size_width = 280, size_height = 240,
             shapes = [], toolActive = Pen, isDrawing = False\<rparr>"
    by (simp add: mount_def onResizeStop_def onWindowResize_def clamp_def baseWidth_def
        baseHeight_def layout_defs)
  show ?thesis
    using r modal_size_within_bounds [OF r] by simp
qed

subsection \<open>C5: a stroke is one shape whose points grow in arrival order\<close>

text \<open>
  Claim C5. With a stroke tool active, a pointer-down at a position followed by any sequence
  of move events leaves the store as it was with one stroke appended: its points are the
  normalised point of the pointer-down followed by one normalised point for each move that
  had a position, in the order the moves arrived. A move with a position changes the store
  exactly when a stroke is being drawn and the last shape is a stroke of the pen, the
  highlighter or the eraser, and then it appends its one point to that last shape.
\<close>

theorem stroke_grows_in_arrival_order:
  assumes "isStrokeTool (toolActive s)"
  shows "shapes (foldl (\<lambda>t m. onMouseMove m t) (onMouseDown (Some p) s) ms)
      = shapes s @
        [LineS \<lparr>line_tool = toolActive s,
                line_color = (if toolActive s = Highlight then ''rgba(255,255,0,0.5)'' else ''#222''),
                line_stroke = (if toolActive s = Eraser then 24 else 3),
                line_points = normPoint (stageW s) (stageH s) p @ arrived (stageW s) (stageH s) ms,
                line_keyOfPage = None\<rparr>]
    \<and> shapes (onMouseMove (Some q) t)
      = (case lastStroke (shapes t) of
           Some l \<Rightarrow>
             if isDrawing t then
               butlast (shapes t) @
                 [LineS (l\<lparr>line_points := line_points l @ normPoint (stageW t) (stageH t) q\<rparr>)]
             else shapes t
         | None \<Rightarrow> shapes t)
    \<and> ((shapes (onMouseMove (Some q) t) \<noteq> shapes t)
        = (isDrawing t \<and> lastStroke (shapes t) \<noteq> None))"
proof -
  let ?l = "\<lparr>line_tool = toolActive s,
                line_color = (if toolActive s = Highlight then ''rgba(255,255,0,0.5)'' else ''#222''),
                line_stroke = (if toolActive s = Eraser then 24 else 3),
                line_points = normPoint (stageW s) (stageH s) p,
                line_keyOfPage = None\<rparr>"
  let ?d = "onMouseDown (Some p) s"
  have d: "?d = s\<lparr>isDrawing := True, shapes := shapes s @ [LineS ?l]\<rparr>"
    using assms by (simp add: onMouseDown_def Let_def normPoint_def)
  have dr: "isDrawing ?d" and sh: "shapes ?d = shapes s @ [LineS ?l]"
    and tl: "isStrokeTool (line_tool ?l)"
    and wh: "stageW ?d = stageW s" "stageH ?d = stageH s"
    using assms by (simp_all add: d stageW_def stageH_def)
  have first: "shapes (foldl (\<lambda>t m. onMouseMove m t) ?d ms)
      = shapes s @ [LineS (?l\<lparr>line_points := line_points ?l @ arrived (stageW s) (stageH s) ms\<rparr>)]"
    using moves_append [OF dr sh tl, of ms] by (simp add: wh)
  have second: "shapes (onMouseMove (Some q) t)
      = (case lastStroke (shapes t) of
           Some l \<Rightarrow>
             if isDrawing t then
               butlast (shapes t) @
                 [LineS (l\<lparr>line_points := line_points l @ normPoint (stageW t) (stageH t) q\<rparr>)]
             else shapes t
         | None \<Rightarrow> shapes t)"
    by (simp add: onMouseMove_def appendPoint_lastStroke split: option.splits)
  have third: "(shapes (onMouseMove (Some q) t) \<noteq> shapes t)
        = (isDrawing t \<and> lastStroke (shapes t) \<noteq> None)"
  proof (cases "lastStroke (shapes t)")
    case None
    then show ?thesis using second by simp
  next
    case (Some l)
    then have ne: "shapes t \<noteq> []" and la: "last (shapes t) = LineS l"
      by (auto simp: lastStroke_def split: if_splits AnyShape.splits)
    have eq: "shapes t = butlast (shapes t) @ [LineS l]"
      using ne la by (metis append_butlast_last_id)
    have "normPoint (stageW t) (stageH t) q \<noteq> []" by (simp add: normPoint_def)
    then have "line_points l @ normPoint (stageW t) (stageH t) q \<noteq> line_points l" by simp
    then have "l\<lparr>line_points := line_points l @ normPoint (stageW t) (stageH t) q\<rparr> \<noteq> l"
      by (metis LineShape.select_convs(4) LineShape.surjective LineShape.update_convs(4))
    then have "butlast (shapes t) @
        [LineS (l\<lparr>line_points := line_points l @ normPoint (stageW t) (stageH t) q\<rparr>)] \<noteq> shapes t"
      using eq by (metis AnyShape.inject(1) append1_eq_conv)
    then show ?thesis using second Some by simp
  qed
  show ?thesis using first second third by simp
qed

theorem stroke_grows_in_arrival_order_witness:
  "isStrokeTool (toolActive (mount 880 872))
   \<and> shapes (foldl (\<lambda>t m. onMouseMove m t)
        (onMouseDown (Some \<lparr>pos_x = 400, pos_y = 300\<rparr>) (mount 880 872))
        [Some \<lparr>pos_x = 800, pos_y = 0\<rparr>, None, Some \<lparr>pos_x = 200, pos_y = 150\<rparr>])
     = [LineS \<lparr>line_tool = Pen, line_color = ''#222'', line_stroke = 3,
               line_points = [1/2, 1/2, 1, 0, 1/4, 1/4], line_keyOfPage = None\<rparr>]"
proof -
  have t: "isStrokeTool (toolActive (mount 880 872))"
    by (simp add: mount_def isStrokeTool_def)
  show ?thesis
    using t stroke_grows_in_arrival_order [OF t, of "\<lparr>pos_x = 400, pos_y = 300\<rparr>"
        "[Some \<lparr>pos_x = 800, pos_y = 0\<rparr>, None, Some \<lparr>pos_x = 200, pos_y = 150\<rparr>]",
        THEN conjunct1]
    by (simp add: mount_def normPoint_def arrived_def stageW_def stageH_def clamp_def
        baseWidth_def baseHeight_def layout_defs)
qed

subsection \<open>C10: a pointer-down without a position still starts drawing\<close>

text \<open>
  Claim C10. With a stroke tool active and an earlier stroke as the last shape of the store, a
  pointer-down whose position is unavailable sets the drawing flag and changes nothing else:
  no stroke is created. The move events that follow append their points, in arrival order, to
  that earlier stroke.
\<close>

theorem down_without_position_continues_previous_stroke:
  assumes "isStrokeTool (toolActive s)"
    and "shapes s = pre @ [LineS l]"
    and "isStrokeTool (line_tool l)"
  shows "onMouseDown None s = s\<lparr>isDrawing := True\<rparr>
    \<and> foldl (\<lambda>t m. onMouseMove m t) (onMouseDown None s) ms
      = s\<lparr>isDrawing := True,
          shapes := pre @ [LineS (l\<lparr>line_points :=
            line_points l @ arrived (stageW s) (stageH s) ms\<rparr>)]\<rparr>"
proof -
  let ?d = "s\<lparr>isDrawing := True\<rparr>"
  have d: "onMouseDown None s = ?d"
    using assms(1) by (simp add: onMouseDown_def Let_def)
  have dr: "isDrawing ?d" and sh: "shapes ?d = pre @ [LineS l]"
    and wh: "stageW ?d = stageW s" "stageH ?d = stageH s"
    using assms(2) by (simp_all add: stageW_def stageH_def)
  show ?thesis
    using moves_append [OF dr sh assms(3), of ms] by (simp add: d wh)
qed

theorem down_without_position_continues_previous_stroke_witness:
  "isStrokeTool Pen
   \<and> foldl (\<lambda>t m. onMouseMove m t)
       (onMouseDown None
         \<lparr>windowW = 880, windowH = 872, size_width = 800, size_height = 736,
          shapes = [LineS \<lparr>line_tool = Eraser, line_color = ''#222'', line_stroke = 24,
                           line_points = [0, 1], line_keyOfPage = None\<rparr>],
          toolActive = Pen, isDrawing = False\<rparr>)
       [Some \<lparr>pos_x = 400, pos_y = 300\<rparr>]
     = \<lparr>windowW = 880, windowH = 872, size_width = 800, size_height = 736,
        shapes = [LineS \<lparr>line_tool = Eraser, line_color = ''#222'', line_stroke = 24,
                         line_points = [0, 1, 1/2, 1/2], line_keyOfPage = None\<rparr>],
        toolActive = Pen, isDrawing = True\<rparr>"
proof -
  let ?l = "\<lparr>line_tool = Eraser, line_color = ''#222'', line_stroke = 24,
                           line_points = [0, 1], line_keyOfPage = None\<rparr>"
  let ?s = "\<lparr>windowW = 880, windowH = 872, size_width = 800, size_height = 736,
          shapes = [LineS ?l], toolActive = Pen, isDrawing = False\<rparr>"
  have a: "isStrokeTool (toolActive ?s)" by (simp add: isStrokeTool_def)
  have b: "shapes ?s = [] @ [LineS ?l]" by simp
  have c: "isStrokeTool (line_tool ?l)" by (simp add: isStrokeTool_def)
  show ?thesis
    using down_without_position_continues_previous_stroke [OF a b c,
        of "[Some \<lparr>pos_x = 400, pos_y = 300\<rparr>]", THEN conjunct2]
    by (simp add: isStrokeTool_def normPoint_def arrived_def stageW_def stageH_def clamp_def
        layout_defs)
qed

subsection \<open>C8: the tool decides colour, width and compositing\<close>

text \<open>
  Claim C8. Whatever the state and the position, a pointer-down with the highlighter appends
  a stroke of colour \<^verbatim>\<open>rgba(255,255,0,0.5)\<close> and width 3, with the pen one of colour
  \<^verbatim>\<open>#222\<close> and width 3, with the eraser one of width 24. A stroke of the eraser is drawn
  with the compositing mode \<^verbatim>\<open>destination-out\<close>, one of the pen or the highlighter with
  \<^verbatim>\<open>source-over\<close> and its stored colour, each with its stored width.
\<close>

theorem stroke_attributes_by_tool:
  "shapes (onMouseDown (Some p) (s\<lparr>toolActive := Highlight\<rparr>))
     = shapes s @
       [LineS \<lparr>line_tool = Highlight, line_color = ''rgba(255,255,0,0.5)'', line_stroke = 3,
               line_points = normPoint (stageW s) (stageH s) p, line_keyOfPage = None\<rparr>]
   \<and> shapes (onMouseDown (Some p) (s\<lparr>toolActive := Pen\<rparr>))
     = shapes s @
       [LineS \<lparr>line_tool = Pen, line_color = ''#222'', line_stroke = 3,
               line_points = normPoint (stageW s) (stageH s) p, line_keyOfPage = None\<rparr>]
   \<and> shapes (onMouseDown (Some p) (s\<lparr>toolActive := Eraser\<rparr>))
     = shapes s @
       [LineS \<lparr>line_tool = Eraser, line_color = ''#222'', line_stroke = 24,
               line_points = normPoint (stageW s) (stageH s) p, line_keyOfPage = None\<rparr>]
   \<and> (line_tool l = Eraser \<longrightarrow>
        renderShape W H (LineS l)
          = Some (NLine \<lparr>kl_points = ratioForLine W H (line_points l), kl_stroke = ''#000'',
                         kl_strokeWidth = line_stroke l,
                         kl_globalCompositeOperation = ''destination-out''\<rparr>))
   \<and> (line_tool l = Pen \<or> line_tool l = Highlight \<longrightarrow>
        renderShape W H (LineS l)
          = Some (NLine \<lparr>kl_points = ratioForLine W H (line_points l), kl_stroke = line_color l,
                         kl_strokeWidth = line_stroke l,
                         kl_globalCompositeOperation = ''source-over''\<rparr>))"
  by (auto simp: onMouseDown_def isStrokeTool_def normPoint_def stageW_def stageH_def Let_def
      renderShape_def)

theorem stroke_attributes_by_tool_witness:
  "renderShape 800 600
     (last (shapes (onMouseDown (Some \<lparr>pos_x = 400, pos_y = 300\<rparr>)
        ((mount 880 872)\<lparr>toolActive := Eraser\<rparr>))))
   = Some (NLine \<lparr>kl_points = [Some 400, Some 300], kl_stroke = ''#000'',
                  kl_strokeWidth = 24, kl_globalCompositeOperation = ''destination-out''\<rparr>)
   \<and> renderShape 800 600
     (last (shapes (onMouseDown (Some \<lparr>pos_x = 400, pos_y = 300\<rparr>)
        ((mount 880 872)\<lparr>toolActive := Highlight\<rparr>))))
   = Some (NLine \<lparr>kl_points = [Some 400, Some 300], kl_stroke = ''rgba(255,255,0,0.5)'',
                  kl_strokeWidth = 3, kl_globalCompositeOperation = ''source-over''\<rparr>)"
proof -
  let ?p = "\<lparr>pos_x = 400, pos_y = 300\<rparr>"
  let ?e = "\<lparr>line_tool = Eraser, line_color = ''#222'', line_stroke = 24,
               line_points = normPoint (stageW (mount 880 872)) (stageH (mount 880 872)) ?p,
               line_keyOfPage = None\<rparr>"
  let ?h = "\<lparr>line_tool = Highlight, line_color = ''rgba(255,255,0,0.5)'', line_stroke = 3,
               line_points = normPoint (stageW (mount 880 872)) (stageH (mount 880 872)) ?p,
               line_keyOfPage = None\<rparr>"
  have n: "normPoint (stageW (mount 880 872)) (stageH (mount 880 872)) ?p = [1/2, 1/2]"
    by (simp add: mount_def normPoint_def stageW_def stageH_def clamp_def
        baseWidth_def baseHeight_def layout_defs)
  have e: "line_tool ?e = Eraser" and h: "line_tool ?h = Pen \<or> line_tool ?h = Highlight"
    by simp_all
  show ?thesis
    using stroke_attributes_by_tool [of ?p "mount 880 872" ?e 800 600]
      stroke_attributes_by_tool [of ?p "mount 880 872" ?h 800 600] e h
    by (simp add: n denormX_def denormY_def)
qed

subsection \<open>C7: the failure modes change nothing, a non-image file dropped with text apart\<close>




subsection \<open>C9: releasing a dragged image commits its position and nothing else\<close>

text \<open>
  Claim C9. For an image at index \<open>i\<close> of the store, the end of a drag at a pixel position
  commits the position divided by the stage size and clamped to between 0 and 1 as the
  image's \<open>x\<close> and \<open>y\<close>. The image keeps its source, width and height, the store keeps
  its length and every other shape, and the rest of the state is unchanged. A tick of the
  drag before the release changes nothing: the image registers no handler for it.
\<close>

theorem drag_release_commits_position_only:
  assumes "i < length (shapes s)" and "shapes s ! i = ImageS img"
  shows "\<exists>s' img'.
      step s (ImageDragEnd i px py) = Some s'
    \<and> length (shapes s') = length (shapes s)
    \<and> shapes s' ! i = ImageS img'
    \<and> img_x img' = clamp (px / stageW s) 0 1
    \<and> img_y img' = clamp (py / stageH s) 0 1
    \<and> img_src img' = img_src img
    \<and> img_width img' = img_width img
    \<and> img_height img' = img_height img
    \<and> (\<forall>j < length (shapes s). j \<noteq> i \<longrightarrow> shapes s' ! j = shapes s ! j)
    \<and> s'\<lparr>shapes := shapes s\<rparr> = s
    \<and> step s (ImageDragMove i qx qy) = Some s"
proof -
  let ?img = "img\<lparr>img_x := clamp (px / stageW s) 0 1, img_y := clamp (py / stageH s) 0 1\<rparr>"
  let ?s = "s\<lparr>shapes := (shapes s)[i := ImageS ?img]\<rparr>"
  have e: "step s (ImageDragEnd i px py) = Some ?s"
    using assms by (simp add: handleDragEnd_def commitPos_def Let_def)
  have m: "step s (ImageDragMove i qx qy) = Some s"
    using assms by (simp add: isImageAt_def)
  show ?thesis
    using e m assms(1) by (intro exI [of _ ?s] exI [of _ ?img]) simp
qed

theorem drag_release_commits_position_only_witness:
  "step \<lparr>windowW = 880, windowH = 872, size_width = 800, size_height = 736,
         shapes = [LineS \<lparr>line_tool = Pen, line_color = ''#222'', line_stroke = 3,
                          line_points = [0, 1], line_keyOfPage = None\<rparr>,
                   ImageS \<lparr>img_src = ''a.png'', img_x = 1/2, img_y = 1/2,
                           img_width = 1/4, img_height = 2/9\<rparr>],
         toolActive = Cursor, isDrawing = False\<rparr>
     (ImageDragEnd 1 200 900)
   = Some \<lparr>windowW = 880, windowH = 872, size_width = 800, size_height = 736,
         shapes = [LineS \<lparr>line_tool = Pen, line_color = ''#222'', line_stroke = 3,
                          line_points = [0, 1], line_keyOfPage = None\<rparr>,
                   ImageS \<lparr>img_src = ''a.png'', img_x = 1/4, img_y = 1,
                           img_width = 1/4, img_height = 2/9\<rparr>],
         toolActive = Cursor, isDrawing = False\<rparr>"
proof -
  let ?l = "LineS \<lparr>line_tool = Pen, line_color = ''#222'', line_stroke = 3,
                          line_points = [0, 1], line_keyOfPage = None\<rparr>"
  let ?img = "\<lparr>img_src = ''a.png'', img_x = 1/2, img_y = 1/2,
                           img_width = 1/4, img_height = 2/9\<rparr>"
  let ?s = "\<lparr>windowW = 880, windowH = 872, size_width = 800, size_height = 736,
         shapes = [?l, ImageS ?img], toolActive = Cursor, isDrawing = False\<rparr>"
  have a: "1 < length (shapes ?s)" and b: "shapes ?s ! 1 = ImageS ?img" by simp_all
  obtain s' img' where
    st: "step ?s (ImageDragEnd 1 200 900) = Some s'"
    and len: "length (shapes s') = length (shapes ?s)"
    and at: "shapes s' ! 1 = ImageS img'"
    and x: "img_x img' = clamp (200 / stageW ?s) 0 1"
    and y: "img_y img' = clamp (900 / stageH ?s) 0 1"
    and fr: "img_src img' = img_src ?img" "img_width img' = img_width ?img"
      "img_height img' = img_height ?img"
    and oth: "\<forall>j < length (shapes ?s). j \<noteq> 1 \<longrightarrow> shapes s' ! j = shapes ?s ! j"
    and rest: "s'\<lparr>shapes := shapes ?s\<rparr> = ?s"
    using drag_release_commits_position_only [OF a b, of 200 900 0 0] by blast
  have i: "img' = \<lparr>img_src = ''a.png'', img_x = 1/4, img_y = 1,
                           img_width = 1/4, img_height = 2/9\<rparr>"
    using x y fr by (cases img') (simp add: stageW_def stageH_def clamp_def layout_defs)
  have z: "shapes s' ! 0 = ?l" using oth by simp
  from len obtain a0 a1 where sh: "shapes s' = [a0, a1]"
    by (cases "shapes s'"; simp) (metis length_0_conv length_Suc_conv)
  have "shapes s' = [?l, ImageS \<lparr>img_src = ''a.png'', img_x = 1/4, img_y = 1,
                           img_width = 1/4, img_height = 2/9\<rparr>]"
    using sh z at i by simp
  then have "s' = \<lparr>windowW = 880, windowH = 872, size_width = 800, size_height = 736,
         shapes = [?l, ImageS \<lparr>img_src = ''a.png'', img_x = 1/4, img_y = 1,
                           img_width = 1/4, img_height = 2/9\<rparr>],
         toolActive = Cursor, isDrawing = False\<rparr>"
    using rest by (cases s') simp
  then show ?thesis using st by simp
qed

subsection \<open>C4: a dropped image is a quarter of the surface, centred at the drop point\<close>



subsection \<open>C2: what is drawn scales with the surface, a loaded image's height apart\<close>

text \<open>
  Claim C2, as amended. For every surface size, a stroke of the pen, the highlighter or the
  eraser with an even number of stored coordinates is drawn with each \<open>x\<close> times the
  width and each \<open>y\<close> times the height; a circle with its centre scaled so and its radius
  times the width; a rectangle with its origin and size scaled so; an image with its
  position and its width scaled so, and its height too while its asset has not loaded. Once
  the asset has loaded, the image's pixel height is its pixel width times the asset's height
  over the asset's width, whatever the stored height and the surface height. A resize-stop
  and a viewport change write nothing to the store themselves.
\<close>

theorem render_scales_with_surface:
  "(isStrokeTool (line_tool l) \<and> even (length (line_points l)) \<longrightarrow>
      (\<exists>k. renderShape W H (LineS l) = Some (NLine k)
        \<and> length (kl_points k) = length (line_points l)
        \<and> (\<forall>i < length (line_points l). kl_points k ! i
             = Some (if even i then line_points l ! i * W else line_points l ! i * H))))
   \<and> renderShape W H (CircleS c)
       = Some (NCircle \<lparr>kc_x = circle_x (circle c) * W, kc_y = circle_y (circle c) * H,
                        kc_radius = circle_radius (circle c) * W,
                        kc_stroke = circle_color c, kc_strokeWidth = circle_stroke c\<rparr>)
   \<and> renderShape W H (RectS r)
       = Some (NRect \<lparr>kr_x = rect_x (rectangle r) * W, kr_y = rect_y (rectangle r) * H,
                      kr_width = rect_width (rectangle r) * W,
                      kr_height = rect_height (rectangle r) * H,
                      kr_stroke = rect_color r, kr_strokeWidth = rect_stroke r\<rparr>)
   \<and> ki_x (RenderImageBase img el W H) = img_x img * W
   \<and> ki_y (RenderImageBase img el W H) = img_y img * H
   \<and> ki_width (RenderImageBase img el W H) = img_width img * W
   \<and> ki_height (RenderImageBase img None W H) = img_height img * H
   \<and> ki_height (RenderImageBase img (Some e) W H)
       = img_width img * W * (el_height e / el_width e)
   \<and> shapes (onResizeStop newW newH s) = shapes s
   \<and> shapes (onWindowResize wW wH s) = shapes s"
proof -
  have line: "isStrokeTool (line_tool l) \<and> even (length (line_points l)) \<longrightarrow>
      (\<exists>k. renderShape W H (LineS l) = Some (NLine k)
        \<and> length (kl_points k) = length (line_points l)
        \<and> (\<forall>i < length (line_points l). kl_points k ! i
             = Some (if even i then line_points l ! i * W else line_points l ! i * H)))"
  proof
    assume a: "isStrokeTool (line_tool l) \<and> even (length (line_points l))"
    let ?k = "\<lparr>kl_points = ratioForLine W H (line_points l),
               kl_stroke = (if line_tool l = Eraser then ''#000'' else line_color l),
               kl_strokeWidth = line_stroke l,
               kl_globalCompositeOperation =
                 (if line_tool l = Eraser then ''destination-out'' else ''source-over'')\<rparr>"
    have "renderShape W H (LineS l) = Some (NLine ?k)"
      using a by (simp add: renderShape_def isStrokeTool_def)
    then show "\<exists>k. renderShape W H (LineS l) = Some (NLine k)
        \<and> length (kl_points k) = length (line_points l)
        \<and> (\<forall>i < length (line_points l). kl_points k ! i
             = Some (if even i then line_points l ! i * W else line_points l ! i * H))"
      using ratioForLine_even [of "line_points l" W H] a by (intro exI [of _ ?k]) simp
  qed
  have rest: "renderShape W H (CircleS c)
       = Some (NCircle \<lparr>kc_x = circle_x (circle c) * W, kc_y = circle_y (circle c) * H,
                        kc_radius = circle_radius (circle c) * W,
                        kc_stroke = circle_color c, kc_strokeWidth = circle_stroke c\<rparr>)"
    "renderShape W H (RectS r)
       = Some (NRect \<lparr>kr_x = rect_x (rectangle r) * W, kr_y = rect_y (rectangle r) * H,
                      kr_width = rect_width (rectangle r) * W,
                      kr_height = rect_height (rectangle r) * H,
                      kr_stroke = rect_color r, kr_strokeWidth = rect_stroke r\<rparr>)"
    by (simp_all add: renderShape_def denormX_def denormY_def)
  have image: "ki_x (RenderImageBase img el W H) = img_x img * W"
    "ki_y (RenderImageBase img el W H) = img_y img * H"
    "ki_width (RenderImageBase img el W H) = img_width img * W"
    "ki_height (RenderImageBase img None W H) = img_height img * H"
    "ki_height (RenderImageBase img (Some e) W H)
       = img_width img * W * (el_height e / el_width e)"
    by (simp_all add: RenderImageBase_def desiredHByAspect_def Let_def)
  have store: "shapes (onResizeStop newW newH s) = shapes s"
    "shapes (onWindowResize wW wH s) = shapes s"
    by (simp_all add: onResizeStop_def onWindowResize_def)
  show ?thesis
    using line rest image store by blast
qed

theorem render_scales_with_surface_witness:
  "renderShape 800 600
     (LineS \<lparr>line_tool = Pen, line_color = ''#222'', line_stroke = 3,
             line_points = [1/2, 1/2, 1, 0], line_keyOfPage = None\<rparr>)
   = Some (NLine \<lparr>kl_points = [Some 400, Some 300, Some 800, Some 0], kl_stroke = ''#222'',
                  kl_strokeWidth = 3, kl_globalCompositeOperation = ''source-over''\<rparr>)"
proof -
  let ?l = "\<lparr>line_tool = Pen, line_color = ''#222'', line_stroke = 3,
             line_points = [1/2, 1/2, 1, 0], line_keyOfPage = None\<rparr>"
  have a: "isStrokeTool (line_tool ?l) \<and> even (length (line_points ?l))"
    by (simp add: isStrokeTool_def)
  obtain k where r: "renderShape 800 600 (LineS ?l) = Some (NLine k)"
    and len: "length (kl_points k) = length (line_points ?l)"
    and pts: "\<forall>i < length (line_points ?l). kl_points k ! i
             = Some (if even i then line_points ?l ! i * 800 else line_points ?l ! i * 600)"
    using render_scales_with_surface [where l = ?l and W = 800 and H = 600] a by blast
  have p: "kl_points k = [Some 400, Some 300, Some 800, Some 0]"
  proof (rule nth_equalityI)
    show "length (kl_points k) = length [Some 400, Some 300, Some 800, Some (0::real)]"
      using len by simp
  next
    fix i assume "i < length (kl_points k)"
    then have "i < 4" using len by simp
    then consider "i = 0" | "i = 1" | "i = 2" | "i = 3" by linarith
    then show "kl_points k ! i = [Some 400, Some 300, Some 800, Some 0] ! i"
      using pts by cases simp_all
  qed
  have "renderShape 800 600 (LineS ?l) = Some (NLine k)" by (rule r)
  moreover have "kl_stroke k = ''#222'' \<and> kl_strokeWidth k = 3
      \<and> kl_globalCompositeOperation k = ''source-over''"
    using r by (auto simp: renderShape_def)
  ultimately show ?thesis using p by (cases k) simp
qed

text \<open>
  The claim as stated, for every stored shape, fails for a loaded image. With the stored
  height 2/9 that matches a 300 by 200 asset on a stage of 800 by 600, the pixel height on a
  stage of 800 by 300 is not 2/9 of 300: it is what it was on the stage of 800 by 600.
\<close>

theorem loaded_image_height_ignores_surface_height:
  "ki_height (RenderImageBase
      \<lparr>img_src = ''a.png'', img_x = 1/2, img_y = 1/2, img_width = 1/4, img_height = 2/9\<rparr>
      (Some \<lparr>el_width = 300, el_height = 200\<rparr>) 800 600) = denormY 600 (2/9)
   \<and> ki_height (RenderImageBase
      \<lparr>img_src = ''a.png'', img_x = 1/2, img_y = 1/2, img_width = 1/4, img_height = 2/9\<rparr>
      (Some \<lparr>el_width = 300, el_height = 200\<rparr>) 800 300) \<noteq> denormY 300 (2/9)
   \<and> ki_height (RenderImageBase
      \<lparr>img_src = ''a.png'', img_x = 1/2, img_y = 1/2, img_width = 1/4, img_height = 2/9\<rparr>
      (Some \<lparr>el_width = 300, el_height = 200\<rparr>) 800 300)
     = ki_height (RenderImageBase
      \<lparr>img_src = ''a.png'', img_x = 1/2, img_y = 1/2, img_width = 1/4, img_height = 2/9\<rparr>
      (Some \<lparr>el_width = 300, el_height = 200\<rparr>) 800 600)"
  by (simp add: RenderImageBase_def desiredHByAspect_def denormY_def Let_def)

subsection \<open>C3: the aspect correction runs again after a resize\<close>

text \<open>
  Claim C3 says that the height of an image is corrected once after its asset loads, that a
  second run of the effect within the tolerance commits nothing, and that a later resize of
  the surface does not trigger the correction again. The first two hold in the run below: on
  a stage of 800 by 600 an image of normalised width 0.25 with a 300 by 200 asset gets the
  height 2/9, which is 200 times 2/3 over 600, and a second run of the effect changes
  nothing. The third does not: the stage height and the desired height are dependencies of
  the effect, so after a resize-stop to a stage of 800 by 300 the effect runs and commits the
  height 4/9.
\<close>

theorem aspect_height_recommitted_after_resize:
  "run (mount 880 872)
     [NativeDrop (Some \<lparr>text_plain = ''a.png'', files = []\<rparr>)
        (StageAt (Some \<lparr>pos_x = 400, pos_y = 300\<rparr>)),
      AspectEffect 0 (Some \<lparr>el_width = 300, el_height = 200\<rparr>)]
   = Some \<lparr>windowW = 880, windowH = 872, size_width = 800, size_height = 736,
       shapes = [ImageS \<lparr>img_src = ''a.png'', img_x = 1/2, img_y = 1/2,
                         img_width = 1/4, img_height = 2/9\<rparr>],
       toolActive = Pen, isDrawing = False\<rparr>
   \<and> step \<lparr>windowW = 880, windowH = 872, size_width = 800, size_height = 736,
       shapes = [ImageS \<lparr>img_src = ''a.png'', img_x = 1/2, img_y = 1/2,
                         img_width = 1/4, img_height = 2/9\<rparr>],
       toolActive = Pen, isDrawing = False\<rparr>
       (AspectEffect 0 (Some \<lparr>el_width = 300, el_height = 200\<rparr>))
   = Some \<lparr>windowW = 880, windowH = 872, size_width = 800, size_height = 736,
       shapes = [ImageS \<lparr>img_src = ''a.png'', img_x = 1/2, img_y = 1/2,
                         img_width = 1/4, img_height = 2/9\<rparr>],
       toolActive = Pen, isDrawing = False\<rparr>
   \<and> run \<lparr>windowW = 880, windowH = 872, size_width = 800, size_height = 736,
       shapes = [ImageS \<lparr>img_src = ''a.png'', img_x = 1/2, img_y = 1/2,
                         img_width = 1/4, img_height = 2/9\<rparr>],
       toolActive = Pen, isDrawing = False\<rparr>
     [ResizeStop 800 436, AspectEffect 0 (Some \<lparr>el_width = 300, el_height = 200\<rparr>)]
   = Some \<lparr>windowW = 880, windowH = 872, size_width = 800, size_height = 436,
       shapes = [ImageS \<lparr>img_src = ''a.png'', img_x = 1/2, img_y = 1/2,
                         img_width = 1/4, img_height = 4/9\<rparr>],
       toolActive = Pen, isDrawing = False\<rparr>"
  by (simp add: mount_def onDrop_def dropAtPointer_def aspectEffect_def commitHeightByAspect_def
      desiredHByAspect_def onResizeStop_def stageW_def stageH_def clamp_def baseWidth_def
      baseHeight_def layout_defs Let_def)

end
